theory Spec2Isabelle
  imports Main
begin

section \<open>Data model\<close>

text \<open>
  A JavaScript error value as the three files read it: its \<open>message\<close>, and the two
  properties the HTTP library sets on a failed request, \<open>response\<close> (the server answered
  with a non-success status) and \<open>request\<close> (the request left, nothing came back).
  \<open>new Error(m)\<close> has neither.

  The body of such a response, \<open>response.data\<close>, is the JSON value \<open>null\<close>, on which
  reading a property throws, or a value on which \<open>.errorSummary\<close> can be read (an object,
  a text), with the summary when it has one.
\<close>

datatype response_body = NullBody | Body (errorSummary: "string option")

record error_response =
  status :: nat
  statusText :: string
  data :: response_body

datatype js_error =
  JsError (message: string) (response: "error_response option") (request: bool)

definition new_Error :: "string \<Rightarrow> js_error" where
  "new_Error m = JsError m None False"

text \<open>The \<open>TypeError\<close> of reading \<open>errorSummary\<close> on \<open>null\<close>.\<close>

definition null_read_error :: js_error where
  "null_read_error =
     JsError (''Cannot read properties of null (reading '' @ [CHR 0x27] @ ''errorSummary'' @
              [CHR 0x27] @ '')'') None False"

text \<open>A log event is passed through unmodified; only the number of events is ever inspected.\<close>

record log_event =
  published :: string
  eventType :: string

text \<open>\<open>config.query\<close>, both fields optional in the configuration file.\<close>

record query_config =
  since :: "string option"
  limit :: "int option"

record scan_config =
  query :: "query_config option"

record threat_info =
  Tactic :: "string list"
  Technique :: "string list"

text \<open>
  The four fields that a rule and its result share, then the rule as the loader leaves it
  (\<open>OIE\<close> is \<open>detection.okta_systemlog.OIE\<close> of the parsed document; the last four fields
  are the ones the loader adds), and the per-rule result of the runner.
\<close>

record rule_text =
  title :: string
  description :: "string option"
  threat :: "threat_info option"
  false_positives :: "string list"

record detection = rule_text +
  OIE :: "string option"
  filename :: "string option"
  sourceType :: "string option"
  queryType :: "string option"
  query :: "string option"

record rule_result = rule_text +
  events :: "log_event list"
  error :: "string option"

record summary =
  total :: nat
  success :: nat
  failed :: nat
  withFindings :: nat
  totalFindings :: nat
  detectionResults :: "rule_result list"

section \<open>detectionRunner.js\<close>

text \<open>
  A \<open>DetectionRunner\<close> holds the injected query client, the configuration and the report
  generator. Each collaborator acts on a world \<open>'w\<close> that is passed through; the client and
  the generator either throw (\<open>Inl\<close>) or return (\<open>Inr\<close>). The runner is defined for every
  client that answers each call; terminal output is not modelled.
\<close>

record 'w detection_runner =
  oktaClient :: "string option \<Rightarrow> string option \<Rightarrow> int \<Rightarrow> 'w \<Rightarrow> (js_error + log_event list) \<times> 'w"
  config :: scan_config
  pdfGenerator :: "summary \<Rightarrow> scan_config \<Rightarrow> 'w \<Rightarrow> (js_error + string) \<times> 'w"
  sleep :: "nat \<Rightarrow> 'w \<Rightarrow> 'w"

text \<open>\<open>this.config.query?.since\<close> and \<open>this.config.query?.limit || 100\<close>.\<close>

definition config_since :: "scan_config \<Rightarrow> string option" where
  "config_since c = (case scan_config.query c of None \<Rightarrow> None | Some q \<Rightarrow> since q)"

definition config_limit :: "scan_config \<Rightarrow> int" where
  "config_limit c =
     (case scan_config.query c of
        None \<Rightarrow> 100
      | Some q \<Rightarrow> (case limit q of None \<Rightarrow> 100 | Some l \<Rightarrow> if l = 0 then 100 else l))"

text \<open>The object returned at the end of \<open>runDetectionWithEvents\<close>.\<close>

definition success_result :: "detection \<Rightarrow> log_event list \<Rightarrow> rule_result" where
  "success_result d evs =
     \<lparr>title = title d, description = description d, threat = threat d,
      false_positives = false_positives d, events = evs, error = None\<rparr>"

text \<open>The object pushed by the \<open>catch\<close> branch of \<open>runAllDetections\<close>.\<close>

definition failure_result :: "detection \<Rightarrow> js_error \<Rightarrow> rule_result" where
  "failure_result d e =
     \<lparr>title = title d, description = description d, threat = threat d,
      false_positives = false_positives d, events = [], error = Some (message e)\<rparr>"

definition runDetectionWithEvents ::
  "'w detection_runner \<Rightarrow> detection \<Rightarrow> nat \<Rightarrow> nat \<Rightarrow> 'w \<Rightarrow> (js_error + rule_result) \<times> 'w" where
  "runDetectionWithEvents this d index n w =
     (case oktaClient this (query d) (config_since (config this)) (config_limit (config this)) w of
        (Inl e, w1) \<Rightarrow> (Inl e, w1)
      | (Inr evs, w1) \<Rightarrow> (Inr (success_result d evs), w1))"

text \<open>\<open>runDetection\<close> awaits \<open>runDetectionWithEvents\<close> and returns \<open>result.events.length\<close>.\<close>

definition runDetection ::
  "'w detection_runner \<Rightarrow> detection \<Rightarrow> nat \<Rightarrow> nat \<Rightarrow> 'w \<Rightarrow> (js_error + nat) \<times> 'w" where
  "runDetection this d index n w =
     (case runDetectionWithEvents this d index n w of
        (Inl e, w1) \<Rightarrow> (Inl e, w1)
      | (Inr result, w1) \<Rightarrow> (Inr (length (events result)), w1))"

text \<open>The first line of \<open>runAllDetections\<close>: the runner's own selection.\<close>

definition executable :: "detection list \<Rightarrow> detection list" where
  "executable detections = filter (\<lambda>d. queryType d = Some ''OIE'') detections"

text \<open>The two branches of the \<open>try\<close> in the loop body, as updates of \<open>results\<close>.\<close>

definition record_success :: "summary \<Rightarrow> rule_result \<Rightarrow> summary" where
  "record_success results r =
     (let results1 = results\<lparr>success := success results + 1\<rparr>;
          results2 = results1\<lparr>detectionResults := detectionResults results1 @ [r]\<rparr>
      in if length (events r) > 0
         then results2\<lparr>withFindings := withFindings results2 + 1,
                       totalFindings := totalFindings results2 + length (events r)\<rparr>
         else results2)"

definition record_failure :: "summary \<Rightarrow> detection \<Rightarrow> js_error \<Rightarrow> summary" where
  "record_failure results d e =
     (let results1 = results\<lparr>failed := failed results + 1\<rparr>
      in results1\<lparr>detectionResults := detectionResults results1 @ [failure_result d e]\<rparr>)"

text \<open>
  The \<open>for\<close> loop over \<open>executable\<close>: the list argument is the part of \<open>executable\<close> from
  index \<open>i\<close> on, \<open>n\<close> is \<open>executable.length\<close>. After either branch the runner sleeps 200 ms.
\<close>

fun run_loop ::
  "'w detection_runner \<Rightarrow> detection list \<Rightarrow> nat \<Rightarrow> nat \<Rightarrow> summary \<Rightarrow> 'w \<Rightarrow> summary \<times> 'w" where
  "run_loop this [] i n results w = (results, w)"
| "run_loop this (d # rest) i n results w =
     (case runDetectionWithEvents this d (i + 1) n w of
        (Inr r, w1) \<Rightarrow> run_loop this rest (i + 1) n (record_success results r) (sleep this 200 w1)
      | (Inl e, w1) \<Rightarrow> run_loop this rest (i + 1) n (record_failure results d e) (sleep this 200 w1))"

definition initial_results :: "nat \<Rightarrow> summary" where
  "initial_results n =
     \<lparr>total = n, success = 0, failed = 0, withFindings = 0, totalFindings = 0,
      detectionResults = []\<rparr>"

text \<open>
  The report is generated inside its own \<open>try\<close>/\<open>catch\<close>: whatever it answers is dropped,
  and it only reads \<open>results\<close>.
\<close>

definition runAllDetections ::
  "'w detection_runner \<Rightarrow> detection list \<Rightarrow> 'w \<Rightarrow> summary \<times> 'w" where
  "runAllDetections this detections w =
     (let ex = executable detections;
          (results, w1) = run_loop this ex 0 (length ex) (initial_results (length ex)) w;
          (pdf, w2) = pdfGenerator this results (config this) w1
      in (results, w2))"

subsection \<open>A scripted query client\<close>

text \<open>
  A world for the runner in which the outcome of the \<open>k\<close>-th query still to come is
  \<open>answers k\<close>, chosen freely; the queries asked and the delays awaited are logged. The
  report generator answers \<open>pdf\<close>, a path or a throw.
\<close>

record scripted =
  answers :: "nat \<Rightarrow> js_error + log_event list"
  asked :: "(string option \<times> string option \<times> int) list"
  delays :: "nat list"

definition scripted_query ::
  "string option \<Rightarrow> string option \<Rightarrow> int \<Rightarrow> scripted \<Rightarrow> (js_error + log_event list) \<times> scripted" where
  "scripted_query f s l w =
     (answers w 0, w\<lparr>answers := (\<lambda>k. answers w (Suc k)), asked := asked w @ [(f, s, l)]\<rparr>)"

definition scripted_runner :: "scan_config \<Rightarrow> js_error + string \<Rightarrow> scripted detection_runner" where
  "scripted_runner c pdf =
     \<lparr>oktaClient = scripted_query, config = c,
      pdfGenerator = (\<lambda>results c w. (pdf, w)),
      sleep = (\<lambda>ms w. w\<lparr>delays := delays w @ [ms]\<rparr>)\<rparr>"

text \<open>The result recorded for a rule, by the outcome of its query.\<close>

definition recorded :: "detection \<times> (js_error + log_event list) \<Rightarrow> rule_result" where
  "recorded p = (case snd p of Inl e \<Rightarrow> failure_result (fst p) e | Inr evs \<Rightarrow> success_result (fst p) evs)"

section \<open>detectionLoader.js: the filter\<close>

text \<open>\<open>d.queryType === 'OIE' && d.query\<close>: a missing and an empty query are both falsy.\<close>

definition truthy :: "string option \<Rightarrow> bool" where
  "truthy s = (case s of None \<Rightarrow> False | Some t \<Rightarrow> t \<noteq> [])"

definition filterExecutableDetections :: "detection list \<Rightarrow> detection list" where
  "filterExecutableDetections detections =
     filter (\<lambda>d. queryType d = Some ''OIE'' \<and> truthy (query d)) detections"


section \<open>oktaClient.js\<close>

record okta_client =
  domain :: string
  apiToken :: string
  baseUrl :: string

definition OktaClient :: "string \<Rightarrow> string \<Rightarrow> okta_client" where
  "OktaClient d t = \<lparr>domain = d, apiToken = t, baseUrl = ''https://'' @ d @ ''/api/v1''\<rparr>"

text \<open>A successful response: \<open>response.data\<close> and \<open>response.headers.link\<close>.\<close>

record http_response =
  data :: "log_event list"
  link :: "string option"

text \<open>The \<open>params\<close> object: filter, limit, sortOrder and, when given, since.\<close>

datatype query_params = Params "string option" int string "string option"

text \<open>
  What the client does to the outside: a GET (its URL and its parameters, if any) or a
  delay in milliseconds. The network answers the \<open>k\<close>-th request still to come with
  \<open>script k\<close>: a response, or the error the HTTP library rejects with. The script is
  unbounded, so a server may go on offering next links for ever.
\<close>

datatype io = Get string "query_params option" | Sleep nat

record net =
  script :: "nat \<Rightarrow> js_error + http_response"
  trace :: "io list"

definition client_get :: "string \<Rightarrow> query_params option \<Rightarrow> net \<Rightarrow> (js_error + http_response) \<times> net" where
  "client_get url ps w =
     (script w 0, w\<lparr>script := (\<lambda>k. script w (Suc k)), trace := trace w @ [Get url ps]\<rparr>)"

definition client_sleep :: "nat \<Rightarrow> net \<Rightarrow> net" where
  "client_sleep ms w = w\<lparr>trace := trace w @ [Sleep ms]\<rparr>"

subsection \<open>Strings\<close>

text \<open>
  Header and rule texts are lists of one-byte characters. \<open>is_space\<close> is the part of the
  regular-expression class \<open>\s\<close> (and of what \<open>trim\<close> strips) below code 256.
\<close>

definition is_space :: "char \<Rightarrow> bool" where
  "is_space c = (of_char c \<in> {9, 10, 11, 12, 13, 32, 160 :: nat})"

text \<open>\<open>s.includes(t)\<close>.\<close>

fun str_includes :: "string \<Rightarrow> string \<Rightarrow> bool" where
  "str_includes [] t = (t = [])"
| "str_includes (c # cs) t = (take (length t) (c # cs) = t \<or> str_includes cs t)"

definition rel_next :: string where
  "rel_next = [CHR ''r'', CHR ''e'', CHR ''l'', CHR ''='', CHR 0x22,
               CHR ''n'', CHR ''e'', CHR ''x'', CHR ''t'', CHR 0x22]"

text \<open>
  The pattern \<open><([^>]+)>;\s*rel="next"\<close> tried at the head of a string: a \<open><\<close>, the
  longest run of characters other than \<open>>\<close> (not empty, and no shorter run is followed by
  \<open>>\<close>), then \<open>>;\<close>, white space, and the literal. The answer is the captured group.
\<close>

definition match_here :: "string \<Rightarrow> string option" where
  "match_here s =
     (case s of
        [] \<Rightarrow> None
      | c # rest \<Rightarrow>
          if c \<noteq> CHR ''<'' then None
          else (let g = takeWhile (\<lambda>x. x \<noteq> CHR ''>'') rest;
                    after = dropWhile (\<lambda>x. x \<noteq> CHR ''>'') rest
                in if g = [] then None
                   else (case after of
                           gt # semi # t \<Rightarrow>
                             if semi = CHR '';'' \<and>
                                take (length rel_next) (dropWhile is_space t) = rel_next
                             then Some g else None
                         | _ \<Rightarrow> None)))"

text \<open>\<open>linkHeader.match(...)\<close>: the leftmost position where the pattern matches.\<close>

fun nextMatch :: "string \<Rightarrow> string option" where
  "nextMatch [] = None"
| "nextMatch (c # cs) =
     (case match_here (c # cs) of Some g \<Rightarrow> Some g | None \<Rightarrow> nextMatch cs)"

text \<open>\<open>s.replace(pat, '')\<close>: the first occurrence of \<open>pat\<close> is removed.\<close>

fun remove_first :: "string \<Rightarrow> string \<Rightarrow> string" where
  "remove_first pat [] = []"
| "remove_first pat (c # cs) =
     (if take (length pat) (c # cs) = pat then drop (length pat) (c # cs)
      else c # remove_first pat cs)"

text \<open>A number in a template string, for the status code.\<close>

fun show_nat :: "nat \<Rightarrow> string" where
  "show_nat n =
     (if n < 10 then [''0123456789'' ! n]
      else show_nat (n div 10) @ [''0123456789'' ! (n mod 10)])"

subsection \<open>querySystemLog\<close>

text \<open>
  The link check after each page: the new \<open>url\<close> and \<open>hasMore\<close>. A header that contains
  \<open>rel="next"\<close> but does not match the pattern ends the pagination like a missing one.
\<close>

definition follow_link :: "okta_client \<Rightarrow> string \<Rightarrow> bool \<Rightarrow> string option \<Rightarrow> string \<times> bool" where
  "follow_link this url hasMore linkHeader =
     (if truthy linkHeader \<and> str_includes (case linkHeader of None \<Rightarrow> [] | Some h \<Rightarrow> h) rel_next
      then (case nextMatch (case linkHeader of None \<Rightarrow> [] | Some h \<Rightarrow> h) of
              Some g \<Rightarrow> (remove_first (baseUrl this) g, hasMore)
            | None \<Rightarrow> (url, False))
      else (url, False))"

text \<open>
  The \<open>while\<close> loop. It has no bound of its own, so it is a partial function: \<open>None\<close> is
  a loop that never ends. A rejected request leaves the loop with the error.
\<close>

partial_function (option) pagination ::
  "okta_client \<Rightarrow> query_params \<Rightarrow> int \<Rightarrow> string \<Rightarrow> bool \<Rightarrow> log_event list \<Rightarrow> net
     \<Rightarrow> ((js_error + log_event list) \<times> net) option" where
  "pagination this params lim url hasMore results w =
     (if hasMore \<and> int (length results) < lim then
        (case client_get url (if url = ''/logs'' then Some params else None) w of
           (Inl e, w1) \<Rightarrow> Some (Inl e, w1)
         | (Inr resp, w1) \<Rightarrow>
             (let results1 = results @ data resp;
                  next = follow_link this url hasMore (link resp);
                  w2 = client_sleep 100 w1
              in pagination this params lim (fst next) (snd next) results1 w2))
      else Some (Inr results, w))"

text \<open>\<open>results.slice(0, limit)\<close>; a negative end counts from the end of the array.\<close>

definition slice0 :: "'a list \<Rightarrow> int \<Rightarrow> 'a list" where
  "slice0 xs n = (if n < 0 then take (nat (int (length xs) + n)) xs else take (nat n) xs)"

text \<open>
  The \<open>catch\<close> block: the error it throws. \<open>error.response.data.errorSummary\<close> is read
  first, which throws on a \<open>null\<close> body; \<open>a || b\<close> takes \<open>b\<close> when \<open>a\<close> is missing or
  empty.
\<close>

definition normalize_error :: "js_error \<Rightarrow> js_error" where
  "normalize_error e =
     (case response e of
        Some r \<Rightarrow>
          (case error_response.data r of
             NullBody \<Rightarrow> null_read_error
           | Body summary \<Rightarrow>
               new_Error (''Okta API Error: '' @ show_nat (status r) @ '' - '' @
                          (case summary of
                             None \<Rightarrow> statusText r
                           | Some s \<Rightarrow> if s = [] then statusText r else s)))
      | None \<Rightarrow>
          if request e then new_Error ''Network error: Unable to reach Okta API'' else e)"

definition querySystemLog ::
  "okta_client \<Rightarrow> string option \<Rightarrow> string option \<Rightarrow> int \<Rightarrow> net
     \<Rightarrow> ((js_error + log_event list) \<times> net) option" where
  "querySystemLog this flt snc lim w =
     (case pagination this (Params flt lim ''DESCENDING'' (if truthy snc then snc else None))
             lim ''/logs'' True [] w of
        None \<Rightarrow> None
      | Some (Inl e, w1) \<Rightarrow> Some (Inl (normalize_error e), w1)
      | Some (Inr results, w1) \<Rightarrow> Some (Inr (slice0 results lim), w1))"

text \<open>A page offers a next link when the link check keeps \<open>hasMore\<close>.\<close>

definition has_next :: "okta_client \<Rightarrow> http_response \<Rightarrow> bool" where
  "has_next this p = snd (follow_link this ''/logs'' True (link p))"

section \<open>detectionLoader.js\<close>

record source =
  name :: string
  githubBaseUrl :: string
  rawBaseUrl :: string
  type :: string

record detection_loader =
  sources :: "source list"
  cacheDir :: string

definition DetectionLoader :: "string \<Rightarrow> detection_loader" where
  "DetectionLoader cwd =
     \<lparr>sources =
        [\<lparr>name = ''detections'',
          githubBaseUrl = ''https://api.github.com/repos/okta/customer-detections/contents/detections'',
          rawBaseUrl = ''https://raw.githubusercontent.com/okta/customer-detections/master/detections'',
          type = ''detection''\<rparr>,
         \<lparr>name = ''hunts'',
          githubBaseUrl = ''https://api.github.com/repos/okta/customer-detections/contents/hunts'',
          rawBaseUrl = ''https://raw.githubusercontent.com/okta/customer-detections/master/hunts'',
          type = ''hunt''\<rparr>],
      cacheDir = cwd @ ''/detections''\<rparr>"

text \<open>
  The cache file \<open>detections.json\<close>: missing, not parsable, or the JSON of a list of rules.
  The world of the loader: whether \<open>mkdir\<close> and \<open>writeFile\<close> fail, the cache file, what the
  listing of a collection answers (the file names, or a throw), what fetching and parsing
  one rule file answers (the parsed document, or a throw of the request or of the parser),
  the URLs requested so far and the delays awaited.
\<close>

datatype cache_file = NoFile | Unparsable | Json "detection list"

record disk_and_web =
  mkdir_fails :: "js_error option"
  writeFile_fails :: "js_error option"
  cacheFile :: cache_file
  listing :: "string \<Rightarrow> js_error + string list"
  rule_file :: "string \<Rightarrow> js_error + detection"
  fetched :: "string list"
  naps :: "nat list"

definition get_listing :: "string \<Rightarrow> disk_and_web \<Rightarrow> (js_error + string list) \<times> disk_and_web" where
  "get_listing url w = (listing w url, w\<lparr>fetched := fetched w @ [url]\<rparr>)"

definition get_rule :: "string \<Rightarrow> disk_and_web \<Rightarrow> (js_error + detection) \<times> disk_and_web" where
  "get_rule url w = (rule_file w url, w\<lparr>fetched := fetched w @ [url]\<rparr>)"

definition nap :: "nat \<Rightarrow> disk_and_web \<Rightarrow> disk_and_web" where
  "nap ms w = w\<lparr>naps := naps w @ [ms]\<rparr>"

text \<open>\<open>fs.readFile\<close> followed by \<open>JSON.parse\<close>.\<close>

definition read_cache :: "disk_and_web \<Rightarrow> js_error + detection list" where
  "read_cache w =
     (case cacheFile w of
        NoFile \<Rightarrow> Inl (new_Error ''ENOENT: no such file or directory'')
      | Unparsable \<Rightarrow> Inl (new_Error ''Unexpected token in JSON'')
      | Json ds \<Rightarrow> Inr ds)"

definition endsWith :: "string \<Rightarrow> string \<Rightarrow> bool" where
  "endsWith s suffix = (take (length suffix) (rev s) = rev suffix)"

definition trim :: "string \<Rightarrow> string" where
  "trim s = rev (dropWhile is_space (rev (dropWhile is_space s)))"

text \<open>
  The inner loop over the files of one collection. A file whose fetch or parse throws is
  skipped without a delay; a document with an OIE query is tagged and pushed.
\<close>

fun load_files ::
  "source \<Rightarrow> string list \<Rightarrow> detection list \<Rightarrow> nat \<Rightarrow> nat \<Rightarrow> disk_and_web
     \<Rightarrow> (detection list \<times> nat \<times> nat) \<times> disk_and_web" where
  "load_files src [] allDetections loadedCount skippedCount w =
     ((allDetections, loadedCount, skippedCount), w)"
| "load_files src (file # files) allDetections loadedCount skippedCount w =
     (case get_rule (rawBaseUrl src @ ''/'' @ file) w of
        (Inl e, w1) \<Rightarrow> load_files src files allDetections loadedCount skippedCount w1
      | (Inr doc, w1) \<Rightarrow>
          (let d = doc\<lparr>filename := Some file, sourceType := Some (type src)\<rparr>
           in case OIE d of
                None \<Rightarrow> load_files src files allDetections loadedCount (skippedCount + 1) (nap 100 w1)
              | Some q \<Rightarrow>
                  if q = [] then
                    load_files src files allDetections loadedCount (skippedCount + 1) (nap 100 w1)
                  else
                    load_files src files
                      (allDetections @ [d\<lparr>queryType := Some ''OIE'', query := Some (trim q)\<rparr>])
                      (loadedCount + 1) skippedCount (nap 100 w1)))"

text \<open>The outer loop over the collections; a listing that throws is only logged.\<close>

fun load_sources ::
  "source list \<Rightarrow> detection list \<Rightarrow> nat \<Rightarrow> nat \<Rightarrow> disk_and_web
     \<Rightarrow> (detection list \<times> nat \<times> nat) \<times> disk_and_web" where
  "load_sources [] allDetections totalLoadedCount totalSkippedCount w =
     ((allDetections, totalLoadedCount, totalSkippedCount), w)"
| "load_sources (src # rest) allDetections totalLoadedCount totalSkippedCount w =
     (case get_listing (githubBaseUrl src) w of
        (Inl e, w1) \<Rightarrow> load_sources rest allDetections totalLoadedCount totalSkippedCount w1
      | (Inr names, w1) \<Rightarrow>
          (let files = filter (\<lambda>n. endsWith n ''.yml'') names;
               r = load_files src files allDetections 0 0 w1
           in load_sources rest (fst (fst r))
                (totalLoadedCount + fst (snd (fst r)))
                (totalSkippedCount + snd (snd (fst r))) (snd r)))"

text \<open>The remote fetch and the write of the cache, which may throw.\<close>

definition fetch_and_cache :: "detection_loader \<Rightarrow> disk_and_web \<Rightarrow> (js_error + detection list) \<times> disk_and_web" where
  "fetch_and_cache this w =
     (let r = load_sources (sources this) [] 0 0 w;
          allDetections = fst (fst r);
          w1 = snd r
      in case writeFile_fails w1 of
           Some e \<Rightarrow> (Inl e, w1)
         | None \<Rightarrow> (Inr allDetections, w1\<lparr>cacheFile := Json allDetections\<rparr>))"

text \<open>The body of the outer \<open>try\<close>.\<close>

definition try_load :: "detection_loader \<Rightarrow> bool \<Rightarrow> disk_and_web \<Rightarrow> (js_error + detection list) \<times> disk_and_web" where
  "try_load this forceRefresh w =
     (case mkdir_fails w of
        Some e \<Rightarrow> (Inl e, w)
      | None \<Rightarrow>
          if \<not> forceRefresh then
            (case read_cache w of
               Inr detections \<Rightarrow> (Inr detections, w)
             | Inl err \<Rightarrow> fetch_and_cache this w)
          else fetch_and_cache this w)"

definition loadDetections :: "detection_loader \<Rightarrow> bool \<Rightarrow> disk_and_web \<Rightarrow> (js_error + detection list) \<times> disk_and_web" where
  "loadDetections this forceRefresh w =
     (case try_load this forceRefresh w of
        (Inr detections, w1) \<Rightarrow> (Inr detections, w1)
      | (Inl e, w1) \<Rightarrow>
          (case read_cache w1 of
             Inr detections \<Rightarrow> (Inr detections, w1)
           | Inl cacheError \<Rightarrow>
               (Inl (new_Error (''Failed to load detections and hunts from GitHub and no cache available: '' @ message e)), w1)))"


section \<open>Auxiliary definitions\<close>

text \<open>
  The bookkeeping of \<open>results\<close> that every iteration of the runner's loop keeps.
\<close>

definition tallied :: "summary \<Rightarrow> bool" where
  "tallied s \<longleftrightarrow>
     success s + failed s = length (detectionResults s) \<and>
     success s = length (filter (\<lambda>r. error r = None) (detectionResults s)) \<and>
     withFindings s = length (filter (\<lambda>r. events r \<noteq> []) (detectionResults s)) \<and>
     totalFindings s = sum_list (map (\<lambda>r. length (events r)) (filter (\<lambda>r. events r \<noteq> []) (detectionResults s))) \<and>
     filter (\<lambda>r. error r \<noteq> None \<and> events r \<noteq> []) (detectionResults s) = []"

text \<open>
  Pages in the order the network serves them: \<open>served s ps\<close> when the next requests are
  answered with the pages \<open>ps\<close>; \<open>linked this ps\<close> when every page but the last offers a
  next link; \<open>continuing this lim n ps\<close> when, starting from \<open>n\<close> events, the loop goes on
  after each page of \<open>ps\<close>.
\<close>

fun served :: "(nat \<Rightarrow> js_error + http_response) \<Rightarrow> http_response list \<Rightarrow> bool" where
  "served s [] = True"
| "served s (p # ps) = (s 0 = Inr p \<and> served (\<lambda>k. s (Suc k)) ps)"


fun continuing :: "okta_client \<Rightarrow> int \<Rightarrow> nat \<Rightarrow> http_response list \<Rightarrow> bool" where
  "continuing this lim n [] = True"
| "continuing this lim n (p # ps) =
     (has_next this p \<and> int (n + length (data p)) < lim \<and>
      continuing this lim (n + length (data p)) ps)"



text \<open>
  One turn of the loop as seen from outside: the request, then the delay of 100 ms. \<open>gets\<close>
  counts the requests of a trace, \<open>sleeps\<close> lists its delays; \<open>advance m t w\<close> is the
  network after \<open>m\<close> answers and the trace \<open>t\<close>.
\<close>

definition exchange :: "query_params \<Rightarrow> string \<Rightarrow> io list" where
  "exchange params url = [Get url (if url = ''/logs'' then Some params else None), Sleep 100]"



definition advance :: "nat \<Rightarrow> io list \<Rightarrow> net \<Rightarrow> net" where
  "advance m t w = w\<lparr>script := (\<lambda>k. script w (k + m)), trace := trace w @ t\<rparr>"



text \<open>
  Small concrete inputs: events, rules as the loader tags them, scripted query outcomes.
\<close>

definition sample_event :: "string \<Rightarrow> log_event" where
  "sample_event t = \<lparr>published = t, eventType = ''user.session.start''\<rparr>"

definition sample_rule :: "string \<Rightarrow> string \<Rightarrow> detection" where
  "sample_rule t q =
     \<lparr>title = t, description = None, threat = None, false_positives = [],
      OIE = Some q, filename = Some (t @ ''.yml''), sourceType = Some ''detection'',
      queryType = Some ''OIE'', query = Some (trim q)\<rparr>"

definition scripted_world :: "(js_error + log_event list) list \<Rightarrow> scripted" where
  "scripted_world xs =
     \<lparr>answers = (\<lambda>k. if k < length xs then xs ! k else Inl (new_Error ''not scripted'')),
      asked = [], delays = []\<rparr>"

definition default_config :: scan_config where
  "default_config = \<lparr>scan_config.query = None\<rparr>"

definition three_rules :: "detection list" where
  "three_rules = [sample_rule ''A'' ''a eq 1'', sample_rule ''B'' ''b eq 2'', sample_rule ''C'' ''c eq 3'']"

definition six_events :: "log_event list" where
  "six_events = map sample_event [''1'', ''2'', ''3'', ''4'', ''5'', ''6'']"

text \<open>
  A client, pages with and without a next link, a network given by its first answers.
\<close>

definition acme :: okta_client where
  "acme = OktaClient ''acme.okta.com'' ''00abc''"

definition page :: "string list \<Rightarrow> string option \<Rightarrow> http_response" where
  "page ts l = \<lparr>data = map sample_event ts, link = l\<rparr>"

definition next_header :: "string \<Rightarrow> string" where
  "next_header u = ''<'' @ u @ ''>; '' @ rel_next"

definition network :: "(js_error + http_response) list \<Rightarrow> net" where
  "network xs =
     \<lparr>script = (\<lambda>k. if k < length xs then xs ! k else Inl (JsError ''socket hang up'' None True)),
      trace = []\<rparr>"

definition two_pages :: "http_response list" where
  "two_pages =
     [page [''1'', ''2''] (Some (next_header ''https://acme.okta.com/api/v1/logs?after=1'')),
      page [''3''] None]"

definition unauthorized :: js_error where
  "unauthorized =
     JsError ''Request failed with status code 401''
       (Some \<lparr>status = 401, statusText = ''Unauthorized'',
              error_response.data = Body (Some ''Invalid token provided'')\<rparr>) True"

definition null_body_500 :: js_error where
  "null_body_500 =
     JsError ''Request failed with status code 500''
       (Some \<lparr>status = 500, statusText = ''Internal Server Error'',
              error_response.data = NullBody\<rparr>) True"

text \<open>
  A parsed rule file, and two worlds for the loader: one in which only the collection
  \<open>hunts\<close> answers, with one rule file and one other file, and one in which nothing answers.
\<close>

definition hunt_doc :: "string \<Rightarrow> string \<Rightarrow> detection" where
  "hunt_doc t q =
     \<lparr>title = t, description = None, threat = None, false_positives = [],
      OIE = Some q, filename = None, sourceType = None, queryType = None, query = None\<rparr>"

definition not_found :: js_error where
  "not_found =
     JsError ''Request failed with status code 404''
       (Some \<lparr>status = 404, statusText = ''Not Found'',
              error_response.data = Body None\<rparr>) True"

definition hunts_only :: "cache_file \<Rightarrow> string \<Rightarrow> disk_and_web" where
  "hunts_only c q =
     \<lparr>mkdir_fails = None, writeFile_fails = None, cacheFile = c,
      listing = (\<lambda>url.
        if url = ''https://api.github.com/repos/okta/customer-detections/contents/hunts''
        then Inr [''h1.yml'', ''README.md''] else Inl not_found),
      rule_file = (\<lambda>url.
        if url = ''https://raw.githubusercontent.com/okta/customer-detections/master/hunts/h1.yml''
        then Inr (hunt_doc ''H1'' q) else Inl not_found),
      fetched = [], naps = []\<rparr>"

definition unreachable_web :: "cache_file \<Rightarrow> disk_and_web" where
  "unreachable_web c =
     \<lparr>mkdir_fails = None, writeFile_fails = None, cacheFile = c,
      listing = (\<lambda>url. Inl not_found), rule_file = (\<lambda>url. Inl not_found),
      fetched = [], naps = []\<rparr>"

definition blank_rule :: detection where
  "blank_rule =
     (hunt_doc ''H1'' ''  '')
       \<lparr>filename := Some ''h1.yml'', sourceType := Some ''hunt'',
        queryType := Some ''OIE'', query := Some []\<rparr>"

section \<open>Properties of detectionRunner.js\<close>

lemma record_success_simps:
  "total (record_success s r) = total s"
  "success (record_success s r) = success s + 1"
  "failed (record_success s r) = failed s"
  "withFindings (record_success s r) = withFindings s + (if events r = [] then 0 else 1)"
  "totalFindings (record_success s r) = totalFindings s + length (events r)"
  "detectionResults (record_success s r) = detectionResults s @ [r]"
  by (simp_all add: record_success_def Let_def)

lemma record_failure_simps:
  "total (record_failure s d e) = total s"
  "success (record_failure s d e) = success s"
  "failed (record_failure s d e) = failed s + 1"
  "withFindings (record_failure s d e) = withFindings s"
  "totalFindings (record_failure s d e) = totalFindings s"
  "detectionResults (record_failure s d e) = detectionResults s @ [failure_result d e]"
  by (simp_all add: record_failure_def Let_def)

lemma result_fields:
  "events (success_result d evs) = evs" "error (success_result d evs) = None"
  "events (failure_result d e) = []" "error (failure_result d e) = Some (message e)"
  "rule_text.truncate (success_result d evs) = rule_text.truncate d"
  "rule_text.truncate (failure_result d e) = rule_text.truncate d"
  by (simp_all add: success_result_def failure_result_def rule_text.truncate_def)

lemma runDetectionWithEvents_Inr:
  "runDetectionWithEvents this d i n w = (Inr r, w1) \<Longrightarrow>
     error r = None \<and> rule_text.truncate r = rule_text.truncate d"
  by (auto simp: runDetectionWithEvents_def result_fields split: prod.splits sum.splits)

lemma tallied_initial: "tallied (initial_results n)"
  by (simp add: tallied_def initial_results_def)

lemma tallied_success: "tallied s \<Longrightarrow> error r = None \<Longrightarrow> tallied (record_success s r)"
  by (simp add: tallied_def record_success_simps)

lemma tallied_failure: "tallied s \<Longrightarrow> tallied (record_failure s d e)"
  by (simp add: tallied_def record_failure_simps result_fields)

lemma run_loop_tallied:
  "tallied s \<Longrightarrow> run_loop this ex i n s w = (s', w') \<Longrightarrow>
     tallied s' \<and> total s' = total s \<and>
     map rule_text.truncate (detectionResults s') =
       map rule_text.truncate (detectionResults s) @ map rule_text.truncate ex"
proof (induction ex arbitrary: i s w)
  case Nil
  then show ?case by simp
next
  case (Cons d rest)
  show ?case
  proof (cases "runDetectionWithEvents this d (i + 1) n w")
    case (Pair out w1)
    show ?thesis
    proof (cases out)
      case (Inl e)
      with Pair Cons.prems
      have run: "run_loop this rest (i + 1) n (record_failure s d e) (sleep this 200 w1) = (s', w')"
        by simp
      from Cons.IH [OF tallied_failure [OF Cons.prems(1)] run] show ?thesis
        by (simp add: record_failure_simps result_fields)
    next
      case (Inr r)
      with Pair have "runDetectionWithEvents this d (i + 1) n w = (Inr r, w1)" by simp
      from runDetectionWithEvents_Inr [OF this]
      have r: "error r = None" "rule_text.truncate r = rule_text.truncate d" by simp_all
      from Inr Pair Cons.prems
      have run: "run_loop this rest (i + 1) n (record_success s r) (sleep this 200 w1) = (s', w')"
        by simp
      from Cons.IH [OF tallied_success [OF Cons.prems(1) r(1)] run] r show ?thesis
        by (simp add: record_success_simps)
    qed
  qed
qed

lemma fst_runAllDetections:
  "fst (runAllDetections this ds w) =
     fst (run_loop this (executable ds) 0 (length (executable ds))
            (initial_results (length (executable ds))) w)"
  by (simp add: runAllDetections_def Let_def split: prod.splits)

lemma runAllDetections_tallied:
  "tallied (fst (runAllDetections this ds w)) \<and>
   total (fst (runAllDetections this ds w)) = length (executable ds) \<and>
   map rule_text.truncate (detectionResults (fst (runAllDetections this ds w))) =
     map rule_text.truncate (executable ds)"
proof -
  obtain s' w' where run:
    "run_loop this (executable ds) 0 (length (executable ds))
       (initial_results (length (executable ds))) w = (s', w')"
    by (cases "run_loop this (executable ds) 0 (length (executable ds))
       (initial_results (length (executable ds))) w")
  from run_loop_tallied [OF tallied_initial run] run show ?thesis
    by (simp add: fst_runAllDetections initial_results_def)
qed

lemma upt_shift: "map f [0..<Suc n] = f 0 # map (\<lambda>k. f (Suc k)) [0..<n]"
  by (simp only: upt_conv_Cons [of 0 "Suc n"] map_Suc_upt [symmetric]) (simp add: comp_def)

lemma scripted_step:
  "runDetectionWithEvents (scripted_runner c pdf) d i n w =
     (map_sum id (success_result d) (answers w 0),
      w\<lparr>answers := (\<lambda>k. answers w (Suc k)),
        asked := asked w @ [(query d, config_since c, config_limit c)]\<rparr>)"
  by (cases "answers w 0")
     (simp_all add: runDetectionWithEvents_def scripted_runner_def scripted_query_def)

lemma scripted_pdf: "pdfGenerator (scripted_runner c pdf) r c' w = (pdf, w)"
  by (simp add: scripted_runner_def)

lemma scripted_sleep: "sleep (scripted_runner c pdf) ms w = w\<lparr>delays := delays w @ [ms]\<rparr>"
  by (simp add: scripted_runner_def)

lemma run_loop_scripted:
  "run_loop (scripted_runner c pdf) ex i n s w = (s', w') \<Longrightarrow>
     detectionResults s' =
       detectionResults s @ map recorded (zip ex (map (answers w) [0..<length ex])) \<and>
     failed s' = failed s + length (filter isl (map (answers w) [0..<length ex])) \<and>
     asked w' = asked w @ map (\<lambda>d. (query d, config_since c, config_limit c)) ex \<and>
     delays w' = delays w @ replicate (length ex) 200"
proof (induction ex arbitrary: i s w)
  case Nil
  then show ?case by simp
next
  case (Cons d rest)
  let ?w1 = "w\<lparr>answers := (\<lambda>k. answers w (Suc k)),
        asked := asked w @ [(query d, config_since c, config_limit c)], delays := delays w @ [200]\<rparr>"
  show ?case
  proof (cases "answers w 0")
    case (Inl e)
    with Cons.prems
    have run: "run_loop (scripted_runner c pdf) rest (i + 1) n (record_failure s d e) ?w1 = (s', w')"
      by (simp add: scripted_step scripted_sleep)
    from Cons.IH [OF run] Inl show ?thesis
      by (simp add: record_failure_simps upt_shift recorded_def replicate_append_same del: upt_Suc)
  next
    case (Inr evs)
    with Cons.prems
    have run: "run_loop (scripted_runner c pdf) rest (i + 1) n (record_success s (success_result d evs)) ?w1 = (s', w')"
      by (simp add: scripted_step scripted_sleep)
    from Cons.IH [OF run] Inr show ?thesis
      by (simp add: record_success_simps upt_shift recorded_def replicate_append_same del: upt_Suc)
  qed
qed

lemma trim_simps: "trim ''a eq 1'' = ''a eq 1''" "trim ''b eq 2'' = ''b eq 2''" "trim ''c eq 3'' = ''c eq 3''" "trim ''  '' = []"
  by (simp_all add: trim_def is_space_def)

lemma recorded_fields:
  "error (recorded p) = (case snd p of Inl e \<Rightarrow> Some (message e) | Inr evs \<Rightarrow> None)"
  "events (recorded p) = (case snd p of Inl e \<Rightarrow> [] | Inr evs \<Rightarrow> evs)"
  "rule_text.truncate (recorded p) = rule_text.truncate (fst p)"
  by (simp_all add: recorded_def result_fields split: sum.splits)

lemma map_recorded:
  assumes "length ds = length as"
  shows "map error (map recorded (zip ds as)) =
           map (\<lambda>a. case a of Inl e \<Rightarrow> Some (message e) | Inr evs \<Rightarrow> None) as"
    and "map events (map recorded (zip ds as)) =
           map (\<lambda>a. case a of Inl e \<Rightarrow> [] | Inr evs \<Rightarrow> evs) as"
    and "map rule_text.truncate (map recorded (zip ds as)) = map rule_text.truncate ds"
proof -
  have "map error (map recorded (zip ds as)) =
          map (\<lambda>a. case a of Inl e \<Rightarrow> Some (message e) | Inr evs \<Rightarrow> None) (map snd (zip ds as))"
    by (simp add: recorded_fields comp_def)
  then show "map error (map recorded (zip ds as)) =
           map (\<lambda>a. case a of Inl e \<Rightarrow> Some (message e) | Inr evs \<Rightarrow> None) as"
    using assms by (simp only: map_snd_zip)
  have "map events (map recorded (zip ds as)) =
          map (\<lambda>a. case a of Inl e \<Rightarrow> [] | Inr evs \<Rightarrow> evs) (map snd (zip ds as))"
    by (simp add: recorded_fields comp_def)
  then show "map events (map recorded (zip ds as)) =
           map (\<lambda>a. case a of Inl e \<Rightarrow> [] | Inr evs \<Rightarrow> evs) as"
    using assms by (simp only: map_snd_zip)
  have "map rule_text.truncate (map recorded (zip ds as)) = map rule_text.truncate (map fst (zip ds as))"
    by (simp add: recorded_fields comp_def)
  then show "map rule_text.truncate (map recorded (zip ds as)) = map rule_text.truncate ds"
    using assms by (simp only: map_fst_zip)
qed

lemma executable_of_filtered: "filterExecutableDetections ds = ds \<Longrightarrow> executable ds = ds"
  by (simp add: filterExecutableDetections_def executable_def filter_id_conv)

lemma executable_split:
  "length (executable ds) =
     length (filterExecutableDetections ds) +
     length (filter (\<lambda>d. queryType d = Some ''OIE'' \<and> \<not> truthy (query d)) ds)"
  by (induction ds) (simp_all add: executable_def filterExecutableDetections_def)

lemma title_truncate: "map title (map rule_text.truncate rs) = map title rs"
  by (simp add: rule_text.truncate_def)

text \<open>
  Claim C1. Whatever the outcomes of the queries are, the results of \<open>runAllDetections\<close> are,
  rule by rule and in order: for a query that throws, the error field is the message of the
  error and the events are empty; for a query that returns, no error and the events returned;
  in both cases the text of the rule. The throws are counted in \<open>failed\<close>, and every
  selected rule is queried, also those after a failing one. On a list of executable rules
  the runner selects them all.
\<close>

theorem runAllDetections_isolates:
  "map error (detectionResults (fst (runAllDetections (scripted_runner c pdf) ds w))) =
     map (\<lambda>a. case a of Inl e \<Rightarrow> Some (message e) | Inr evs \<Rightarrow> None)
       (map (answers w) [0..<length (executable ds)]) \<and>
   map events (detectionResults (fst (runAllDetections (scripted_runner c pdf) ds w))) =
     map (\<lambda>a. case a of Inl e \<Rightarrow> [] | Inr evs \<Rightarrow> evs)
       (map (answers w) [0..<length (executable ds)]) \<and>
   map rule_text.truncate (detectionResults (fst (runAllDetections (scripted_runner c pdf) ds w))) =
     map rule_text.truncate (executable ds) \<and>
   failed (fst (runAllDetections (scripted_runner c pdf) ds w)) =
     length (filter isl (map (answers w) [0..<length (executable ds)])) \<and>
   asked (snd (runAllDetections (scripted_runner c pdf) ds w)) =
     asked w @ map (\<lambda>d. (query d, config_since c, config_limit c)) (executable ds) \<and>
   (filterExecutableDetections ds = ds \<longrightarrow> executable ds = ds)"
proof -
  obtain s' w' where run:
    "run_loop (scripted_runner c pdf) (executable ds) 0 (length (executable ds))
       (initial_results (length (executable ds))) w = (s', w')"
    by (cases "run_loop (scripted_runner c pdf) (executable ds) 0 (length (executable ds))
       (initial_results (length (executable ds))) w")
  have all: "runAllDetections (scripted_runner c pdf) ds w = (s', w')"
    using run by (simp add: runAllDetections_def Let_def scripted_pdf)
  have n: "length (executable ds) = length (map (answers w) [0..<length (executable ds)])"
    by simp
  from run_loop_scripted [OF run]
  have rs: "detectionResults s' =
        map recorded (zip (executable ds) (map (answers w) [0..<length (executable ds)]))"
    and f: "failed s' = length (filter isl (map (answers w) [0..<length (executable ds)]))"
    and a: "asked w' = asked w @ map (\<lambda>d. (query d, config_since c, config_limit c)) (executable ds)"
    by (simp_all add: initial_results_def)
  show ?thesis
    unfolding all fst_conv snd_conv rs
    using map_recorded [OF n] f a executable_of_filtered by blast
qed

text \<open>
  Three executable rules of which the second throws, and a report that cannot be written:
  the error fields, the events, the titles, the count, and the three queries.
\<close>

theorem runAllDetections_isolates_example:
  "filterExecutableDetections three_rules = three_rules \<and>
   map error (detectionResults (fst (runAllDetections
      (scripted_runner default_config (Inl (new_Error ''ENOSPC''))) three_rules
      (scripted_world [Inr [], Inl (new_Error ''Okta API Error: 500 - boom''), Inr six_events]))))
     = [None, Some ''Okta API Error: 500 - boom'', None] \<and>
   map events (detectionResults (fst (runAllDetections
      (scripted_runner default_config (Inl (new_Error ''ENOSPC''))) three_rules
      (scripted_world [Inr [], Inl (new_Error ''Okta API Error: 500 - boom''), Inr six_events]))))
     = [[], [], six_events] \<and>
   map title (detectionResults (fst (runAllDetections
      (scripted_runner default_config (Inl (new_Error ''ENOSPC''))) three_rules
      (scripted_world [Inr [], Inl (new_Error ''Okta API Error: 500 - boom''), Inr six_events]))))
     = [''A'', ''B'', ''C''] \<and>
   failed (fst (runAllDetections
      (scripted_runner default_config (Inl (new_Error ''ENOSPC''))) three_rules
      (scripted_world [Inr [], Inl (new_Error ''Okta API Error: 500 - boom''), Inr six_events]))) = 1 \<and>
   asked (snd (runAllDetections
      (scripted_runner default_config (Inl (new_Error ''ENOSPC''))) three_rules
      (scripted_world [Inr [], Inl (new_Error ''Okta API Error: 500 - boom''), Inr six_events])))
     = [(Some ''a eq 1'', None, 100), (Some ''b eq 2'', None, 100), (Some ''c eq 3'', None, 100)]"
proof -
  let ?w = "scripted_world [Inr [], Inl (new_Error ''Okta API Error: 500 - boom''), Inr six_events]"
  let ?R = "runAllDetections (scripted_runner default_config (Inl (new_Error ''ENOSPC''))) three_rules ?w"
  have x: "filterExecutableDetections three_rules = three_rules"
    by (simp add: three_rules_def filterExecutableDetections_def sample_rule_def truthy_def trim_simps)
  have ex: "executable three_rules = three_rules"
    by (simp add: three_rules_def executable_def sample_rule_def)
  have as: "map (answers ?w) [0..<length three_rules] =
      [Inr [], Inl (new_Error ''Okta API Error: 500 - boom''), Inr six_events]"
    by (simp add: three_rules_def scripted_world_def upt_conv_Cons)
  from runAllDetections_isolates [of default_config "Inl (new_Error ''ENOSPC'')" three_rules ?w]
  have e: "map error (detectionResults (fst ?R)) = [None, Some ''Okta API Error: 500 - boom'', None]"
    and v: "map events (detectionResults (fst ?R)) = [[], [], six_events]"
    and t: "map rule_text.truncate (detectionResults (fst ?R)) = map rule_text.truncate three_rules"
    and f: "failed (fst ?R) = 1"
    and a: "asked (snd ?R) =
      [(Some ''a eq 1'', None, 100), (Some ''b eq 2'', None, 100), (Some ''c eq 3'', None, 100)]"
    unfolding ex as
    by (simp_all add: new_Error_def scripted_world_def three_rules_def sample_rule_def trim_simps
        default_config_def config_since_def config_limit_def)
  have "map title (detectionResults (fst ?R)) = map title (map rule_text.truncate three_rules)"
    unfolding t [symmetric] by (simp only: title_truncate)
  then have "map title (detectionResults (fst ?R)) = [''A'', ''B'', ''C'']"
    by (simp add: three_rules_def sample_rule_def rule_text.truncate_def)
  with x e v f a show ?thesis by simp
qed

text \<open>
  The summary of \<open>runAllDetections\<close>, for every client and every input, relative to the
  rules the runner selected (its list \<open>executable\<close>): \<open>success + failed = total\<close>;
  \<open>total\<close> is their number; \<open>withFindings\<close> counts the results with events,
  \<open>totalFindings\<close> adds up their numbers of events; no result with an error has events;
  and there is one result per selected rule, carrying that rule's text, in the order of the
  input.
\<close>

lemma runAllDetections_summary_invariants:
  "success (fst (runAllDetections this ds w)) + failed (fst (runAllDetections this ds w))
     = total (fst (runAllDetections this ds w)) \<and>
   total (fst (runAllDetections this ds w)) = length (executable ds) \<and>
   withFindings (fst (runAllDetections this ds w))
     = length (filter (\<lambda>r. events r \<noteq> []) (detectionResults (fst (runAllDetections this ds w)))) \<and>
   totalFindings (fst (runAllDetections this ds w))
     = sum_list (map (\<lambda>r. length (events r))
         (filter (\<lambda>r. events r \<noteq> []) (detectionResults (fst (runAllDetections this ds w))))) \<and>
   filter (\<lambda>r. error r \<noteq> None \<and> events r \<noteq> [])
     (detectionResults (fst (runAllDetections this ds w))) = [] \<and>
   length (detectionResults (fst (runAllDetections this ds w))) = length (executable ds) \<and>
   map rule_text.truncate (detectionResults (fst (runAllDetections this ds w)))
     = map rule_text.truncate (executable ds)"
proof -
  let ?s = "fst (runAllDetections this ds w)"
  have t: "tallied ?s" and n: "total ?s = length (executable ds)"
    and m: "map rule_text.truncate (detectionResults ?s) = map rule_text.truncate (executable ds)"
    using runAllDetections_tallied [of this ds w] by simp_all
  from m have "length (detectionResults ?s) = length (executable ds)"
    by (rule map_eq_imp_length_eq)
  with t n m show ?thesis by (simp add: tallied_def)
qed

text \<open>
  No events, six events, an error: \<open>total = 3\<close>, \<open>success = 2\<close>, \<open>failed = 1\<close>, one rule
  with findings, six findings.
\<close>

lemma runAllDetections_summary_example:
  "total (fst (runAllDetections (scripted_runner default_config (Inr ''report.pdf'')) three_rules
      (scripted_world [Inr [], Inr six_events, Inl (new_Error ''Okta API Error: 500 - boom'')]))) = 3 \<and>
   success (fst (runAllDetections (scripted_runner default_config (Inr ''report.pdf'')) three_rules
      (scripted_world [Inr [], Inr six_events, Inl (new_Error ''Okta API Error: 500 - boom'')]))) = 2 \<and>
   failed (fst (runAllDetections (scripted_runner default_config (Inr ''report.pdf'')) three_rules
      (scripted_world [Inr [], Inr six_events, Inl (new_Error ''Okta API Error: 500 - boom'')]))) = 1 \<and>
   withFindings (fst (runAllDetections (scripted_runner default_config (Inr ''report.pdf'')) three_rules
      (scripted_world [Inr [], Inr six_events, Inl (new_Error ''Okta API Error: 500 - boom'')]))) = 1 \<and>
   totalFindings (fst (runAllDetections (scripted_runner default_config (Inr ''report.pdf'')) three_rules
      (scripted_world [Inr [], Inr six_events, Inl (new_Error ''Okta API Error: 500 - boom'')]))) = 6"
proof -
  let ?w = "scripted_world [Inr [], Inr six_events, Inl (new_Error ''Okta API Error: 500 - boom'')]"
  let ?s = "fst (runAllDetections (scripted_runner default_config (Inr ''report.pdf'')) three_rules ?w)"
  obtain s' w' where run:
    "run_loop (scripted_runner default_config (Inr ''report.pdf'')) (executable three_rules) 0
       (length (executable three_rules)) (initial_results (length (executable three_rules))) ?w
     = (s', w')"
    by (cases "run_loop (scripted_runner default_config (Inr ''report.pdf'')) (executable three_rules) 0
       (length (executable three_rules)) (initial_results (length (executable three_rules))) ?w")
  have s: "?s = s'" by (simp add: fst_runAllDetections run)
  have ex: "executable three_rules = three_rules"
    by (simp add: three_rules_def executable_def sample_rule_def)
  from run_loop_scripted [OF run]
  have rs: "detectionResults s' =
      [success_result (sample_rule ''A'' ''a eq 1'') [],
       success_result (sample_rule ''B'' ''b eq 2'') six_events,
       failure_result (sample_rule ''C'' ''c eq 3'') (new_Error ''Okta API Error: 500 - boom'')]"
    and f: "failed s' = 1"
    unfolding ex
    by (simp_all add: three_rules_def scripted_world_def recorded_def initial_results_def
        upt_conv_Cons)
  have n: "length (executable three_rules) = 3"
    unfolding ex by (simp add: three_rules_def)
  from runAllDetections_summary_invariants [of "scripted_runner default_config (Inr ''report.pdf'')" three_rules ?w]
  show ?thesis
    unfolding s rs n f by (simp add: result_fields six_events_def)
qed

text \<open>
  Claim C7, as the code has it. \<open>runDetection\<close> makes the one query of
  \<open>runDetectionWithEvents\<close> and nothing else; an error of the query is passed on unchanged;
  otherwise the value returned is the number of matched events, not the result record.
\<close>

theorem runDetection_returns_count:
  "runDetection this d i n w =
     (case oktaClient this (query d) (config_since (config this)) (config_limit (config this)) w of
        (Inl e, w1) \<Rightarrow> (Inl e, w1)
      | (Inr evs, w1) \<Rightarrow> (Inr (length evs), w1)) \<and>
   fst (runDetection this d i n w) =
     map_sum id (\<lambda>r. length (events r)) (fst (runDetectionWithEvents this d i n w)) \<and>
   snd (runDetection this d i n w) = snd (runDetectionWithEvents this d i n w)"
  by (simp add: runDetection_def runDetectionWithEvents_def result_fields
      split: prod.splits sum.splits)

text \<open>
  Claim C7 as stated fails: two runs whose result records differ (different events) return
  the same value, \<open>1\<close>, so what \<open>runDetection\<close> returns is not the result record.
\<close>

theorem runDetection_not_rule_result:
  "fst (runDetection (scripted_runner default_config (Inr ''report.pdf'')) (sample_rule ''A'' ''a eq 1'') 1 1
        (scripted_world [Inr [sample_event ''1'']])) = Inr 1 \<and>
   fst (runDetection (scripted_runner default_config (Inr ''report.pdf'')) (sample_rule ''A'' ''a eq 1'') 1 1
        (scripted_world [Inr [sample_event ''2'']])) = Inr 1 \<and>
   fst (runDetectionWithEvents (scripted_runner default_config (Inr ''report.pdf'')) (sample_rule ''A'' ''a eq 1'') 1 1
        (scripted_world [Inr [sample_event ''1'']]))
     \<noteq> fst (runDetectionWithEvents (scripted_runner default_config (Inr ''report.pdf'')) (sample_rule ''A'' ''a eq 1'') 1 1
        (scripted_world [Inr [sample_event ''2'']]))"
  by (simp add: runDetection_def scripted_step scripted_world_def result_fields
      success_result_def sample_event_def)

section \<open>Properties of oktaClient.js\<close>



lemma snd_follow_link: "snd (follow_link this url True (link p)) = has_next this p"
  by (simp add: has_next_def follow_link_def split: option.splits)

lemma pagination_stop:
  "\<not> (hasMore \<and> int (length results) < lim) \<Longrightarrow>
     pagination this params lim url hasMore results w = Some (Inr results, w)"
  by (subst pagination.simps) auto

lemma pagination_fail:
  "int (length results) < lim \<Longrightarrow> script w 0 = Inl e \<Longrightarrow>
     pagination this params lim url True results w =
       Some (Inl e, advance (Suc 0) [Get url (if url = ''/logs'' then Some params else None)] w)"
  by (subst pagination.simps) (simp add: client_get_def advance_def)

lemma pagination_page:
  "int (length results) < lim \<Longrightarrow> script w 0 = Inr p \<Longrightarrow>
     pagination this params lim url True results w =
       pagination this params lim (fst (follow_link this url True (link p))) (has_next this p)
         (results @ data p) (advance (Suc 0) (exchange params url) w)"
  by (subst pagination.simps)
     (simp add: client_get_def client_sleep_def advance_def exchange_def Let_def snd_follow_link)


lemma served_iff: "served s ps \<longleftrightarrow> (\<forall>k<length ps. s k = Inr (ps ! k))"
  by (induction ps arbitrary: s) (simp_all add: All_less_Suc2)


lemma continuing_iff:
  "continuing this lim n ps \<longleftrightarrow>
     (\<forall>k<length ps. has_next this (ps ! k) \<and>
        int (n + length (concat (map data (take (Suc k) ps)))) < lim)"
proof (induction ps arbitrary: n)
  case Nil
  then show ?case by simp
next
  case (Cons p ps)
  show ?case
    unfolding All_less_Suc2 continuing.simps Cons.IH length_Cons
    by (auto simp: add.assoc)
qed












lemma pagination_fails:
  "served (script w) ps \<Longrightarrow> continuing this lim (length results) ps \<Longrightarrow>
   int (length results) < lim \<Longrightarrow> script w (length ps) = Inl e \<Longrightarrow>
     \<exists>w'. pagination this params lim url True results w = Some (Inl e, w')"
proof (induction ps arbitrary: url results w)
  case Nil
  then show ?case by (simp add: pagination_fail)
next
  case (Cons p ps)
  let ?w1 = "advance (Suc 0) (exchange params url) w"
  from Cons.prems have p: "script w 0 = Inr p" "has_next this p"
    and s: "served (script ?w1) ps"
    and c: "continuing this lim (length (results @ data p)) ps"
    and g: "int (length (results @ data p)) < lim"
    and e: "script ?w1 (length ps) = Inl e"
    by (simp_all add: advance_def)
  from Cons.IH [OF s c g e] Cons.prems(3) p show ?case
    by (simp add: pagination_page)
qed

lemma str_includes_append: "str_includes (a @ t @ b) t"
proof (induction a)
  case Nil
  show ?case
  proof (cases "t @ b")
    case Nil
    then show ?thesis by simp
  next
    case (Cons c cs)
    have "take (length t) (t @ b) = t" by simp
    then have "str_includes (c # cs) t" unfolding Cons by simp
    then show ?thesis by (simp add: Cons)
  qed
next
  case (Cons c a)
  then show ?case by simp
qed

lemma follow_examples:
  "follow_link acme url True (Some (next_header ''https://acme.okta.com/api/v1/logs?after=1''))
     = (''/logs?after=1'', True)"
  "follow_link acme url True (Some (next_header ''https://acme.okta.com/api/v1/logs?after=2''))
     = (''/logs?after=2'', True)"
  "follow_link acme url True (Some (''<>; '' @ rel_next)) = (url, False)"
  "follow_link this url True None = (url, False)"
  by (simp_all add: follow_link_def acme_def OktaClient_def next_header_def rel_next_def truthy_def
      match_here_def is_space_def)

lemma has_next_examples:
  "link p = Some (next_header ''https://acme.okta.com/api/v1/logs?after=1'') \<Longrightarrow> has_next acme p"
  "link p = Some (next_header ''https://acme.okta.com/api/v1/logs?after=2'') \<Longrightarrow> has_next acme p"
  "link p = None \<Longrightarrow> \<not> has_next this p"
  by (simp_all add: has_next_def follow_examples)


lemma show_nat_401: "show_nat 401 = ''401''"
  by simp






text \<open>
  Whichever request is rejected, after any number of pages, \<open>querySystemLog\<close> throws: for
  an answer with a non-success status and a readable body, an error whose message holds the
  status code and the error summary, or the status text when the summary is missing or
  empty; for such an answer with the body \<open>null\<close>, the \<open>TypeError\<close> of the property read;
  for a request without an answer, the network error, whose message no API error has; any
  other error as it is.
\<close>

lemma querySystemLog_normalizes_errors:
  assumes "\<forall>k<length ps. script w k = Inr (ps ! k) \<and> has_next this (ps ! k) \<and>
             int (length (concat (map data (take (Suc k) ps)))) < lim"
    and "0 < lim"
    and "script w (length ps) = Inl e"
  shows "\<exists>e' w'. querySystemLog this flt snc lim w = Some (Inl e', w') \<and>
           (case response e of
              Some r \<Rightarrow>
                (case error_response.data r of
                   NullBody \<Rightarrow> e' = null_read_error
                 | Body summary \<Rightarrow>
                     e' = new_Error (''Okta API Error: '' @ show_nat (status r) @ '' - '' @
                            (case summary of
                               None \<Rightarrow> statusText r
                             | Some s \<Rightarrow> if s = [] then statusText r else s)) \<and>
                     str_includes (message e') (show_nat (status r)) \<and>
                     str_includes (message e')
                       (case summary of
                          None \<Rightarrow> statusText r
                        | Some s \<Rightarrow> if s = [] then statusText r else s))
            | None \<Rightarrow>
                if request e then e' = new_Error ''Network error: Unable to reach Okta API''
                else e' = e) \<and>
           new_Error ''Network error: Unable to reach Okta API''
             \<noteq> new_Error (''Okta API Error: '' @ anything)"
proof -
  from assms(1) have s: "served (script w) ps" and c: "continuing this lim (length ([]::log_event list)) ps"
    by (simp_all add: served_iff continuing_iff)
  from assms(2) have g: "int (length ([]::log_event list)) < lim" by simp
  from pagination_fails [OF s c g assms(3)]
  obtain w' where p: "pagination this (Params flt lim ''DESCENDING'' (if truthy snc then snc else None))
      lim ''/logs'' True [] w = Some (Inl e, w')"
    by blast
  have q: "querySystemLog this flt snc lim w = Some (Inl (normalize_error e), w')"
    by (simp add: querySystemLog_def p)
  show ?thesis
  proof (cases "response e")
    case None
    with q show ?thesis by (simp add: normalize_error_def new_Error_def)
  next
    case (Some r)
    have i1: "str_includes (''Okta API Error: '' @ show_nat (status r) @ '' - '' @ x) (show_nat (status r))" for x
      by (rule str_includes_append)
    have i2: "str_includes (''Okta API Error: '' @ show_nat (status r) @ '' - '' @ x) x" for x
      using str_includes_append [of "''Okta API Error: '' @ show_nat (status r) @ '' - ''" x "[]"]
      by simp
    from Some q i1 i2 show ?thesis
      by (auto simp: normalize_error_def new_Error_def split: option.splits response_body.splits)
  qed
qed

text \<open>
  A 401 with an error summary at the first request; no answer to the second request.
\<close>

lemma querySystemLog_normalizes_errors_example:
  "script (network [Inl unauthorized]) 0 = Inl unauthorized \<and>
   (\<exists>w'. querySystemLog acme (Some ''a eq 1'') None 100 (network [Inl unauthorized])
      = Some (Inl (new_Error ''Okta API Error: 401 - Invalid token provided''), w')) \<and>
   continuing acme 100 0 [page [''1'', ''2''] (Some (next_header ''https://acme.okta.com/api/v1/logs?after=1''))] \<and>
   (\<exists>w'. querySystemLog acme (Some ''a eq 1'') None 100
            (network [Inr (page [''1'', ''2''] (Some (next_header ''https://acme.okta.com/api/v1/logs?after=1'')))])
      = Some (Inl (new_Error ''Network error: Unable to reach Okta API''), w'))"
proof -
  have a: "\<forall>k<length ([]::http_response list).
      script (network [Inl unauthorized]) k = Inr ([] ! k) \<and> has_next acme ([] ! k) \<and>
      int (length (concat (map data (take (Suc k) [])))) < 100"
    by simp
  have b: "(0::int) < 100" by simp
  have c: "script (network [Inl unauthorized]) (length ([]::http_response list)) = Inl unauthorized"
    by (simp add: network_def)
  let ?p = "page [''1'', ''2''] (Some (next_header ''https://acme.okta.com/api/v1/logs?after=1''))"
  have n: "continuing acme 100 0 [?p]"
    by (simp add: has_next_examples page_def)
  have a': "\<forall>k<length [?p].
      script (network [Inr ?p]) k = Inr ([?p] ! k) \<and> has_next acme ([?p] ! k) \<and>
      int (length (concat (map data (take (Suc k) [?p])))) < 100"
    by (simp add: network_def has_next_examples page_def)
  have c': "script (network [Inr ?p]) (length [?p]) = Inl (JsError ''socket hang up'' None True)"
    by (simp add: network_def)
  from querySystemLog_normalizes_errors [OF a b c, of "Some ''a eq 1''" None]
  have "\<exists>w'. querySystemLog acme (Some ''a eq 1'') None 100 (network [Inl unauthorized])
      = Some (Inl (new_Error ''Okta API Error: 401 - Invalid token provided''), w')"
    by (auto simp: unauthorized_def show_nat_401)
  moreover from querySystemLog_normalizes_errors [OF a' b c', of "Some ''a eq 1''" None]
  have "\<exists>w'. querySystemLog acme (Some ''a eq 1'') None 100 (network [Inr ?p])
      = Some (Inl (new_Error ''Network error: Unable to reach Okta API''), w')"
    by auto
  ultimately show ?thesis using c n by simp
qed

lemma null_read_message:
  "\<not> str_includes (message null_read_error) ''500''"
  "\<not> str_includes (message null_read_error) ''Internal Server Error''"
  by (simp_all add: null_read_error_def)

text \<open>
  Claim C8. A status 500 whose body is the JSON value \<open>null\<close>: the \<open>catch\<close> block reads
  \<open>errorSummary\<close> on \<open>null\<close> before it can fall back to the status text, so what
  \<open>querySystemLog\<close> throws is that \<open>TypeError\<close>, not the API error with the status code and
  the status text; its message holds neither.
\<close>

theorem querySystemLog_null_body_throws:
  "querySystemLog acme (Some ''a eq 1'') None 100 (network [Inl null_body_500])
     = Some (Inl null_read_error,
             advance (Suc 0)
               [Get ''/logs'' (Some (Params (Some ''a eq 1'') 100 ''DESCENDING'' None))]
               (network [Inl null_body_500])) \<and>
   response null_body_500
     = Some \<lparr>status = 500, statusText = ''Internal Server Error'',
             error_response.data = NullBody\<rparr> \<and>
   null_read_error \<noteq> new_Error (''Okta API Error: '' @ show_nat 500 @ '' - '' @ ''Internal Server Error'') \<and>
   \<not> str_includes (message null_read_error) ''500'' \<and>
   \<not> str_includes (message null_read_error) ''Internal Server Error''"
  by (simp add: querySystemLog_def pagination_fail network_def truthy_def normalize_error_def
      null_body_500_def null_read_message)
     (simp add: null_read_error_def new_Error_def)

text \<open>
  Claim C10. With a limit of zero or less the guard of the loop fails at once:
  \<open>querySystemLog\<close> returns no events and leaves the network untouched, so no request is made.
\<close>

theorem querySystemLog_nonpositive_limit:
  "lim \<le> 0 \<Longrightarrow> querySystemLog this flt snc lim w = Some (Inr [], w)"
  by (simp add: querySystemLog_def pagination_stop slice0_def)

text \<open>
  A limit of zero, with two pages waiting.
\<close>

theorem querySystemLog_nonpositive_limit_example:
  "(0::int) \<le> 0 \<and>
   querySystemLog acme (Some ''a eq 1'') None 0 (network (map Inr two_pages))
     = Some (Inr [], network (map Inr two_pages)) \<and>
   trace (network (map Inr two_pages)) = []"
  using querySystemLog_nonpositive_limit [of 0 acme "Some ''a eq 1''" None "network (map Inr two_pages)"]
  by (simp add: network_def)

section \<open>Properties of detectionLoader.js\<close>






lemma fetched_load_files:
  "set (fetched w) \<subseteq> set (fetched (snd (load_files src files acc l s w)))"
proof (induction files arbitrary: acc l s w)
  case Nil
  then show ?case by simp
next
  case (Cons f files)
  let ?url = "rawBaseUrl src @ ''/'' @ f"
  let ?w1 = "w\<lparr>fetched := fetched w @ [?url]\<rparr>"
  have gw: "get_rule ?url w = (rule_file w ?url, ?w1)"
    by (simp add: get_rule_def)
  have step: "set (fetched w) \<subseteq> set (fetched (snd (load_files src files acc' l' s' w')))"
    if "w' = ?w1 \<or> w' = nap 100 ?w1" for acc' l' s' w'
    using Cons.IH [of w' acc' l' s'] that by (auto simp: nap_def)
  show ?case
  proof (cases "rule_file w ?url")
    case (Inl e)
    show ?thesis
      unfolding load_files.simps gw Inl by (simp add: step)
  next
    case (Inr doc)
    show ?thesis
      unfolding load_files.simps gw Inr
      by (simp add: Let_def step split: option.splits)
  qed
qed




lemma fetched_load_sources:
  "set (fetched w) \<union> set (map githubBaseUrl srcs) \<subseteq> set (fetched (snd (load_sources srcs acc l s w)))"
proof (induction srcs arbitrary: acc l s w)
  case Nil
  then show ?case by simp
next
  case (Cons src srcs)
  let ?url = "githubBaseUrl src"
  let ?w1 = "w\<lparr>fetched := fetched w @ [?url]\<rparr>"
  have g: "get_listing ?url w = (listing w ?url, ?w1)"
    by (simp add: get_listing_def)
  show ?case
  proof (cases "listing w ?url")
    case (Inl e)
    show ?thesis using Cons.IH [of ?w1 acc l s] unfolding load_sources.simps g Inl by auto
  next
    case (Inr names)
    let ?files = "filter (\<lambda>n. endsWith n ''.yml'') names"
    let ?r = "load_files src ?files acc 0 0 ?w1"
    have "set (fetched ?w1) \<subseteq> set (fetched (snd ?r))"
      by (rule fetched_load_files)
    then have "set (fetched w) \<union> {?url} \<subseteq> set (fetched (snd ?r))" by auto
    with Cons.IH [of "snd ?r" "fst (fst ?r)" "l + fst (snd (fst ?r))" "s + snd (snd (fst ?r))"]
    show ?thesis unfolding load_sources.simps g Inr by (auto simp: Let_def)
  qed
qed


lemma endsWith_examples: "endsWith ''h1.yml'' ''.yml''" "\<not> endsWith ''README.md'' ''.yml''"
  by (simp_all add: endsWith_def)


text \<open>
  Claim C4. With \<open>forceRefresh\<close> false and a cache file that parses, \<open>loadDetections\<close>
  returns the cached rules and leaves the world as it is: nothing is requested. When the
  directory is there and the cache file is missing or does not parse, the call goes on as
  with \<open>forceRefresh\<close> true, and the listing of every collection is requested.
\<close>

theorem loadDetections_offline_cache:
  "(cacheFile w = Json ds \<longrightarrow>
      loadDetections this False w = (Inr ds, w) \<and>
      fetched (snd (loadDetections this False w)) = fetched w) \<and>
   (mkdir_fails w = None \<and> (cacheFile w = NoFile \<or> cacheFile w = Unparsable) \<longrightarrow>
      loadDetections this False w = loadDetections this True w \<and>
      set (map githubBaseUrl (sources this)) \<subseteq> set (fetched (snd (loadDetections this False w))))"
proof (intro conjI impI)
  assume c: "cacheFile w = Json ds"
  then show "loadDetections this False w = (Inr ds, w)"
    by (cases "mkdir_fails w") (simp_all add: loadDetections_def try_load_def read_cache_def)
  then show "fetched (snd (loadDetections this False w)) = fetched w" by simp
next
  assume h: "mkdir_fails w = None \<and> (cacheFile w = NoFile \<or> cacheFile w = Unparsable)"
  then have t: "try_load this False w = fetch_and_cache this w"
    "try_load this True w = fetch_and_cache this w"
    by (auto simp: try_load_def read_cache_def)
  then show e: "loadDetections this False w = loadDetections this True w"
    by (simp add: loadDetections_def)
  have "snd (loadDetections this True w) = snd (load_sources (sources this) [] 0 0 w)
        \<or> snd (loadDetections this True w) =
            (snd (load_sources (sources this) [] 0 0 w))
              \<lparr>cacheFile := Json (fst (fst (load_sources (sources this) [] 0 0 w)))\<rparr>"
    by (simp add: loadDetections_def t fetch_and_cache_def Let_def split: option.splits sum.splits)
  then have "fetched (snd (loadDetections this True w)) =
        fetched (snd (load_sources (sources this) [] 0 0 w))"
    by auto
  with fetched_load_sources [of w "sources this" "[]" 0 0] e
  show "set (map githubBaseUrl (sources this)) \<subseteq> set (fetched (snd (loadDetections this False w)))"
    by simp
qed

text \<open>
  A valid cache with nothing reachable, and a missing cache with one collection reachable.
\<close>

theorem loadDetections_offline_cache_example:
  "cacheFile (unreachable_web (Json [sample_rule ''Old'' ''old eq 1''])) = Json [sample_rule ''Old'' ''old eq 1''] \<and>
   loadDetections (DetectionLoader ''/app'') False (unreachable_web (Json [sample_rule ''Old'' ''old eq 1'']))
     = (Inr [sample_rule ''Old'' ''old eq 1''], unreachable_web (Json [sample_rule ''Old'' ''old eq 1''])) \<and>
   fetched (unreachable_web (Json [sample_rule ''Old'' ''old eq 1''])) = [] \<and>
   mkdir_fails (hunts_only NoFile ''a eq 1'') = None \<and> cacheFile (hunts_only NoFile ''a eq 1'') = NoFile \<and>
   loadDetections (DetectionLoader ''/app'') False (hunts_only NoFile ''a eq 1'')
     = loadDetections (DetectionLoader ''/app'') True (hunts_only NoFile ''a eq 1'') \<and>
   ''https://api.github.com/repos/okta/customer-detections/contents/hunts''
     \<in> set (fetched (snd (loadDetections (DetectionLoader ''/app'') False (hunts_only NoFile ''a eq 1''))))"
proof -
  let ?c = "Json [sample_rule ''Old'' ''old eq 1'']"
  have a: "cacheFile (unreachable_web ?c) = ?c" "fetched (unreachable_web ?c) = []"
    by (simp_all add: unreachable_web_def)
  have b: "mkdir_fails (hunts_only NoFile ''a eq 1'') = None \<and>
      (cacheFile (hunts_only NoFile ''a eq 1'') = NoFile \<or> cacheFile (hunts_only NoFile ''a eq 1'') = Unparsable)"
    by (simp add: hunts_only_def)
  have s: "''https://api.github.com/repos/okta/customer-detections/contents/hunts''
     \<in> set (map githubBaseUrl (sources (DetectionLoader ''/app'')))"
    by (simp add: DetectionLoader_def)
  from loadDetections_offline_cache [of "unreachable_web ?c" "[sample_rule ''Old'' ''old eq 1'']" "DetectionLoader ''/app''"]
    loadDetections_offline_cache [of "hunts_only NoFile ''a eq 1''" "[]" "DetectionLoader ''/app''"]
    a b s
  show ?thesis by (auto simp: hunts_only_def)
qed



section \<open>The runner's selection and the loader's filter\<close>

text \<open>
  Claim C6. The runner selects by the tag alone. From a rule file whose OIE query is white
  space only the loader produces a rule tagged \<open>OIE\<close> with an empty query;
  \<open>filterExecutableDetections\<close> rejects it, yet the runner counts it, sends the empty query,
  and reports the events that come back as findings.
\<close>

theorem runAllDetections_runs_blank_query:
  "fst (loadDetections (DetectionLoader ''/app'') True (hunts_only NoFile ''  '')) = Inr [blank_rule] \<and>
   filterExecutableDetections [blank_rule] = [] \<and>
   total (fst (runAllDetections (scripted_runner default_config (Inr ''report.pdf'')) [blank_rule]
      (scripted_world [Inr six_events]))) = 1 \<and>
   totalFindings (fst (runAllDetections (scripted_runner default_config (Inr ''report.pdf'')) [blank_rule]
      (scripted_world [Inr six_events]))) = 6 \<and>
   asked (snd (runAllDetections (scripted_runner default_config (Inr ''report.pdf'')) [blank_rule]
      (scripted_world [Inr six_events]))) = [(Some [], None, 100)]"
proof -
  have "fst (loadDetections (DetectionLoader ''/app'') True (hunts_only NoFile ''  ''))
          = Inr [blank_rule]"
    by (simp add: loadDetections_def try_load_def fetch_and_cache_def DetectionLoader_def
        hunts_only_def get_listing_def get_rule_def nap_def endsWith_examples trim_simps
        hunt_doc_def blank_rule_def Let_def)
  moreover have "filterExecutableDetections [blank_rule] = []"
    by (simp add: filterExecutableDetections_def truthy_def blank_rule_def)
  moreover have "queryType blank_rule = Some ''OIE''" "query blank_rule = Some []"
    by (simp_all add: blank_rule_def)
  then have
    "total (fst (runAllDetections (scripted_runner default_config (Inr ''report.pdf'')) [blank_rule]
        (scripted_world [Inr six_events]))) = 1"
    "totalFindings (fst (runAllDetections (scripted_runner default_config (Inr ''report.pdf'')) [blank_rule]
        (scripted_world [Inr six_events]))) = 6"
    "asked (snd (runAllDetections (scripted_runner default_config (Inr ''report.pdf'')) [blank_rule]
        (scripted_world [Inr six_events]))) = [(Some [], None, 100)]"
    by (simp_all add: runAllDetections_def executable_def Let_def initial_results_def
        scripted_step scripted_sleep scripted_pdf record_success_simps scripted_world_def
        result_fields six_events_def default_config_def config_since_def config_limit_def)
  ultimately show ?thesis by simp
qed

text \<open>
  Claim C2. \<open>total\<close>, and the number of results, is the number of executable rules plus the
  number of rules tagged \<open>OIE\<close> whose query is missing or empty. On the rule with the empty
  query alone there is no executable rule, yet \<open>total\<close> is 1, with one result and one rule
  with findings.
\<close>

theorem runAllDetections_counts_empty_queries:
  "total (fst (runAllDetections this ds w)) =
     length (filterExecutableDetections ds) +
     length (filter (\<lambda>d. queryType d = Some ''OIE'' \<and> \<not> truthy (query d)) ds) \<and>
   length (detectionResults (fst (runAllDetections this ds w))) =
     length (filterExecutableDetections ds) +
     length (filter (\<lambda>d. queryType d = Some ''OIE'' \<and> \<not> truthy (query d)) ds) \<and>
   length (filterExecutableDetections [blank_rule]) = 0 \<and>
   total (fst (runAllDetections (scripted_runner default_config (Inr ''report.pdf'')) [blank_rule]
      (scripted_world [Inr six_events]))) = 1 \<and>
   length (detectionResults (fst (runAllDetections (scripted_runner default_config (Inr ''report.pdf''))
      [blank_rule] (scripted_world [Inr six_events])))) = 1 \<and>
   withFindings (fst (runAllDetections (scripted_runner default_config (Inr ''report.pdf'')) [blank_rule]
      (scripted_world [Inr six_events]))) = 1"
proof -
  have g: "total (fst (runAllDetections this ds w)) = length (executable ds)"
    "length (detectionResults (fst (runAllDetections this ds w))) = length (executable ds)"
    using runAllDetections_summary_invariants [of this ds w] by simp_all
  have h: "total (fst (runAllDetections (scripted_runner default_config (Inr ''report.pdf''))
        [blank_rule] (scripted_world [Inr six_events]))) = length (executable [blank_rule])"
    "length (detectionResults (fst (runAllDetections (scripted_runner default_config (Inr ''report.pdf''))
        [blank_rule] (scripted_world [Inr six_events])))) = length (executable [blank_rule])"
    using runAllDetections_summary_invariants [of "scripted_runner default_config (Inr ''report.pdf'')"
        "[blank_rule]" "scripted_world [Inr six_events]"] by simp_all
  have b: "queryType blank_rule = Some ''OIE''" "query blank_rule = Some []"
    by (simp_all add: blank_rule_def)
  have n: "length (filterExecutableDetections [blank_rule]) = 0" "length (executable [blank_rule]) = 1"
    by (simp_all add: filterExecutableDetections_def executable_def truthy_def b)
  have f: "withFindings (fst (runAllDetections (scripted_runner default_config (Inr ''report.pdf''))
      [blank_rule] (scripted_world [Inr six_events]))) = 1"
    using b
    by (simp add: runAllDetections_def executable_def Let_def initial_results_def
        scripted_step scripted_sleep scripted_pdf record_success_simps scripted_world_def
        result_fields six_events_def)
  show ?thesis
    unfolding g h n by (simp add: executable_split f)
qed

end
